theory Spec2Isabelle
  imports Complex_Main
begin

section \<open>Data model\<close>

text \<open>
  The detection loop (\<^verbatim>\<open>findPieces\<close>) keeps a belief state, a 64 by 12 array of
  numbers: one row per square, one column per piece class. JavaScript numbers are
  modelled as reals: rounding of IEEE doubles is not represented.
\<close>

type_synonym grid = "real list list"

datatype error =
    TypeError    \<comment> \<open>a property is read from \<^verbatim>\<open>undefined\<close>, or \<^verbatim>\<open>undefined\<close> is spread\<close>
  | NonFinite    \<comment> \<open>the source's arithmetic leaves the finite numbers (NaN, Infinity)\<close>
  | IllegalMove  \<comment> \<open>the chess rules engine rejects a move\<close>
  | NotCalibrated \<comment> \<open>\<^verbatim>\<open>throw new Error('... Calibrate first!')\<close>\<close>
  | BridgeError  \<comment> \<open>the promise of \<^verbatim>\<open>sendCommand\<close> is rejected\<close>

text \<open>
  Modelled from the spec: \<^verbatim>\<open>zeros\<close> is imported from \<^verbatim>\<open>./math\<close>, which is not among the
  sources; the spec says the belief state is "reset to all-zero" and "always fully
  populated".
\<close>

definition zeros :: "nat \<Rightarrow> nat \<Rightarrow> grid" where
  "zeros r c = replicate r (replicate c 0)"

section \<open>Score accumulator\<close>

text \<open>
  \<^verbatim>\<open>updateState\<close> runs \<^verbatim>\<open>i\<close> over 0..63 and \<^verbatim>\<open>j\<close> over 0..11 and assigns
  \<^verbatim>\<open>state[i][j] = decay * state[i][j] + (1 - decay) * update[i][j]\<close> in place.
  Both loops are folds over the index range. Where a row below 64 is missing the source
  throws a TypeError, and where a cell below 12 is missing it stores NaN; the embedding
  returns an error for both.
\<close>

definition has_cells :: "grid \<Rightarrow> bool" where
  "has_cells g = (64 \<le> length g \<and> list_all (\<lambda>row. 12 \<le> length row) (take 64 g))"

definition updateRow :: "real \<Rightarrow> real list \<Rightarrow> real list \<Rightarrow> real list" where
  "updateRow decay urow srow =
     fold (\<lambda>j row. row[j := decay * row ! j + (1 - decay) * urow ! j]) [0..<12] srow"

definition updateRows :: "real \<Rightarrow> grid \<Rightarrow> grid \<Rightarrow> grid" where
  "updateRows decay update state =
     fold (\<lambda>i st. st[i := updateRow decay (update ! i) (st ! i)]) [0..<64] state"

definition updateState :: "grid \<Rightarrow> grid \<Rightarrow> real \<Rightarrow> error + grid" where
  "updateState state update decay =
     (if 64 \<le> length state \<and> 64 \<le> length update
      then if has_cells state \<and> has_cells update
           then Inr (updateRows decay update state)
           else Inl NonFinite
      else Inl TypeError)"

text \<open>The default argument \<^verbatim>\<open>decay: number = 0.5\<close>, as the loop calls it.\<close>

definition updateState_default :: "grid \<Rightarrow> grid \<Rightarrow> error + grid" where
  "updateState_default state update = updateState state update (1 / 2)"

text \<open>Every cell of the 64 by 12 window lies in the unit interval.\<close>

definition in_unit :: "grid \<Rightarrow> bool" where
  "in_unit g = (\<forall>s < 64. \<forall>c < 12. 0 \<le> g ! s ! c \<and> g ! s ! c \<le> 1)"

text \<open>The detection update of the end-to-end scenario: 0.9 at one cell, zero elsewhere.\<close>

definition one_detection :: "nat \<Rightarrow> nat \<Rightarrow> real \<Rightarrow> grid" where
  "one_detection s c v = (zeros 64 12)[s := (replicate 12 0)[c := v]]"

section \<open>Candidate move scorer\<close>

text \<open>
  \<^verbatim>\<open>MovesData\<close> and \<^verbatim>\<open>MovesPair\<close> of \<^verbatim>\<open>types.tsx\<close>. The fields \<^verbatim>\<open>from\<close> and \<^verbatim>\<open>to\<close> are
  renamed, the words being reserved here. Squares and classes index arrays, so they are
  naturals; an index beyond the array reads \<^verbatim>\<open>undefined\<close>.
\<close>

record MovesData =
  sans :: "string list"
  from_squares :: "nat list"
  to_squares :: "nat list"
  targets :: "nat list"

record MovesPair =
  move1 :: MovesData
  move2 :: "MovesData option"
  moves :: "MovesData option"

text \<open>\<^verbatim>\<open>Math.max(...row)\<close>; \<open>None\<close> is the \<^verbatim>\<open>-Infinity\<close> of an empty spread.\<close>

definition Math_max :: "real list \<Rightarrow> real option" where
  "Math_max row = (case row of [] \<Rightarrow> None | v # vs \<Rightarrow> Some (fold max vs v))"

text \<open>
  The \<^verbatim>\<open>forEach\<close> over \<^verbatim>\<open>move.from\<close>, with the running \<^verbatim>\<open>score\<close>. A square without a row
  makes the spread throw; an empty row takes the score out of the finite numbers, where
  the embedding stops.
\<close>

fun score_from :: "grid \<Rightarrow> real \<Rightarrow> nat list \<Rightarrow> real \<Rightarrow> error + real" where
  "score_from state from_thr [] score = Inr score"
| "score_from state from_thr (square # rest) score =
     (if square < length state
      then (case Math_max (state ! square) of
              None \<Rightarrow> Inl NonFinite
            | Some m \<Rightarrow> score_from state from_thr rest (score + (1 - m - from_thr)))
      else Inl TypeError)"

text \<open>
  The \<^verbatim>\<open>for\<close> loop over \<^verbatim>\<open>move.to\<close>, reading \<^verbatim>\<open>move.targets\<close> at the same index. A missing
  row throws; a missing target or cell is \<^verbatim>\<open>undefined\<close> and makes the score NaN.
\<close>

fun score_to :: "grid \<Rightarrow> real \<Rightarrow> nat list \<Rightarrow> nat list \<Rightarrow> real \<Rightarrow> error + real" where
  "score_to state to_thr [] tgs score = Inr score"
| "score_to state to_thr (square # rest) tgs score =
     (if square < length state
      then (case tgs of
              [] \<Rightarrow> Inl NonFinite
            | t # tgs' \<Rightarrow>
                if t < length (state ! square)
                then score_to state to_thr rest tgs' (score + (state ! square ! t - to_thr))
                else Inl NonFinite)
      else Inl TypeError)"

definition calculateScore :: "grid \<Rightarrow> MovesData \<Rightarrow> real \<Rightarrow> real \<Rightarrow> error + real" where
  "calculateScore state move from_thr to_thr =
     (case score_from state from_thr (from_squares move) 0 of
        Inl e \<Rightarrow> Inl e
      | Inr score \<Rightarrow> score_to state to_thr (to_squares move) (targets move) score)"

text \<open>The default arguments \<^verbatim>\<open>from_thr=0.6, to_thr=0.6\<close>, as \<^verbatim>\<open>processState\<close> calls it.\<close>

definition calculateScore_default :: "grid \<Rightarrow> MovesData \<Rightarrow> error + real" where
  "calculateScore_default state move = calculateScore state move (6 / 10) (6 / 10)"

text \<open>A move candidate of the board: squares below 64, classes below 12, one target per
  to-square.\<close>

definition candidate :: "MovesData \<Rightarrow> bool" where
  "candidate m = (list_all (\<lambda>sq. sq < 64) (from_squares m)
                 \<and> list_all (\<lambda>sq. sq < 64) (to_squares m)
                 \<and> list_all (\<lambda>t. t < 12) (targets m)
                 \<and> length (targets m) = length (to_squares m))"

section \<open>Move selection policy: scanning the candidates\<close>

text \<open>
  A notation read as \<^verbatim>\<open>sans[0]\<close> is a string, or \<^verbatim>\<open>undefined\<close> when the array is empty.
\<close>

type_synonym san = "string option"

definition sans0 :: "MovesData \<Rightarrow> san" where
  "sans0 m = (case sans m of [] \<Rightarrow> None | n # _ \<Rightarrow> Some n)"

text \<open>The property key a value is converted to by \<^verbatim>\<open>in\<close> and by \<^verbatim>\<open>obj[key]\<close>.\<close>

definition to_key :: "san \<Rightarrow> string" where
  "to_key n = (case n of None \<Rightarrow> ''undefined'' | Some k \<Rightarrow> k)"

text \<open>
  The string-keyed properties every object inherits from \<^verbatim>\<open>Object.prototype\<close>, and those
  a \<^verbatim>\<open>Set\<close> inherits from \<^verbatim>\<open>Set.prototype\<close> as well.
\<close>

definition Object_properties :: "string list" where
  "Object_properties =
     [''constructor'', ''hasOwnProperty'', ''isPrototypeOf'', ''propertyIsEnumerable'',
      ''toLocaleString'', ''toString'', ''valueOf'', ''__proto__'',
      ''__defineGetter__'', ''__defineSetter__'', ''__lookupGetter__'', ''__lookupSetter__'']"

definition Set_properties :: "string list" where
  "Set_properties =
     [''has'', ''add'', ''delete'', ''clear'', ''entries'', ''forEach'', ''size'', ''values'',
      ''keys'', ''union'', ''intersection'', ''difference'', ''symmetricDifference'',
      ''isSubsetOf'', ''isSupersetOf'', ''isDisjointFrom''] @ Object_properties"

text \<open>
  \<^verbatim>\<open>key in seen\<close>, where \<^verbatim>\<open>seen\<close> is a \<^verbatim>\<open>Set\<close>: the operator \<^verbatim>\<open>in\<close> asks for a property
  of the object, and the elements of a \<^verbatim>\<open>Set\<close> are not properties of it (membership is
  \<^verbatim>\<open>seen.has(key)\<close>). The answer does not depend on what the set holds.
\<close>

definition js_in_Set :: "san \<Rightarrow> san set \<Rightarrow> bool" where
  "js_in_Set n seen = (to_key n \<in> set Set_properties)"

text \<open>
  The five results of \<^verbatim>\<open>processState\<close>. A best score is \<open>None\<close> while it still is
  \<^verbatim>\<open>Number.NEGATIVE_INFINITY\<close>.
\<close>

record scan =
  bestScore1 :: "real option"
  bestScore2 :: "real option"
  bestJointScore :: "real option"
  bestMove :: "MovesData option"
  bestMoves :: "MovesData option"

definition no_scan :: scan where
  "no_scan = \<lparr>bestScore1 = None, bestScore2 = None, bestJointScore = None,
              bestMove = None, bestMoves = None\<rparr>"

text \<open>\<^verbatim>\<open>score > best\<close> and \<^verbatim>\<open>best > 0\<close> for a best score that may be \<^verbatim>\<open>-Infinity\<close>.\<close>

definition exceeds :: "real \<Rightarrow> real option \<Rightarrow> bool" where
  "exceeds score best = (case best of None \<Rightarrow> True | Some b \<Rightarrow> b < score)"

definition positive :: "real option \<Rightarrow> bool" where
  "positive best = (case best of None \<Rightarrow> False | Some b \<Rightarrow> 0 < b)"

text \<open>
  The body of \<^verbatim>\<open>movesPairs.forEach\<close>, in two halves. The state threaded through is the
  results so far, \<^verbatim>\<open>possibleMoves\<close> (mutated in place by the source) and \<^verbatim>\<open>seen\<close>.
\<close>

type_synonym scanning = "scan \<times> san set \<times> san set"

definition first_move :: "grid \<Rightarrow> MovesPair \<Rightarrow> scanning \<Rightarrow> error + scanning" where
  "first_move state movePair acc =
     (case acc of (r, possible, seen) \<Rightarrow>
        if \<not> js_in_Set (sans0 (move1 movePair)) seen
        then (case calculateScore_default state (move1 movePair) of
                Inl e \<Rightarrow> Inl e
              | Inr score \<Rightarrow>
                  Inr (if exceeds score (bestScore1 r)
                       then r\<lparr>bestMove := Some (move1 movePair), bestScore1 := Some score\<rparr>
                       else r,
                       if 0 < score then insert (sans0 (move1 movePair)) possible else possible,
                       insert (sans0 (move1 movePair)) seen))
        else Inr acc)"

definition second_move :: "grid \<Rightarrow> MovesPair \<Rightarrow> scanning \<Rightarrow> error + scanning" where
  "second_move state movePair acc =
     (case acc of (r, possible, seen) \<Rightarrow>
        (case move2 movePair of
           None \<Rightarrow> Inr acc
         | Some m2 \<Rightarrow>
            (case moves movePair of
               None \<Rightarrow> Inr acc
             | Some joint \<Rightarrow>
                 if sans0 (move1 movePair) \<notin> possible then Inr acc
                 else (case calculateScore_default state m2 of
                         Inl e \<Rightarrow> Inl e
                       | Inr score2 \<Rightarrow>
                           if score2 < 0 then Inr acc
                           else (case calculateScore_default state joint of
                                   Inl e \<Rightarrow> Inl e
                                 | Inr jointScore \<Rightarrow>
                                     let r2 = (if exceeds score2 (bestScore2 r)
                                               then r\<lparr>bestScore2 := Some score2\<rparr> else r)
                                     in Inr (if exceeds jointScore (bestJointScore r2)
                                             then r2\<lparr>bestJointScore := Some jointScore,
                                                     bestMoves := Some joint\<rparr>
                                             else r2,
                                             possible, seen))))))"

fun forEach_pair :: "grid \<Rightarrow> MovesPair list \<Rightarrow> scanning \<Rightarrow> error + scanning" where
  "forEach_pair state [] acc = Inr acc"
| "forEach_pair state (movePair # rest) acc =
     (case first_move state movePair acc of
        Inl e \<Rightarrow> Inl e
      | Inr acc1 \<Rightarrow>
          (case second_move state movePair acc1 of
             Inl e \<Rightarrow> Inl e
           | Inr acc2 \<Rightarrow> forEach_pair state rest acc2))"

text \<open>\<^verbatim>\<open>processState\<close> returns the results; \<^verbatim>\<open>possibleMoves\<close> is returned beside them.\<close>

definition processState :: "grid \<Rightarrow> MovesPair list \<Rightarrow> san set \<Rightarrow> error + (scan \<times> san set)" where
  "processState state movesPairs possible =
     (case forEach_pair state movesPairs (no_scan, possible, {}) of
        Inl e \<Rightarrow> Inl e
      | Inr (r, possible', seen) \<Rightarrow> Inr (r, possible'))"

text \<open>Two pairs of one cycle whose first moves carry the same notation.\<close>

definition e4_far :: MovesData where
  "e4_far = \<lparr>sans = [''e4''], from_squares = [12], to_squares = [28], targets = [9]\<rparr>"

definition e4_near :: MovesData where
  "e4_near = \<lparr>sans = [''e4''], from_squares = [12], to_squares = [], targets = []\<rparr>"

definition same_notation_pairs :: "MovesPair list" where
  "same_notation_pairs =
     [\<lparr>move1 = e4_far, move2 = None, moves = None\<rparr>,
      \<lparr>move1 = e4_near, move2 = None, moves = None\<rparr>]"

section \<open>Move selection policy: committing a move\<close>

text \<open>
  The modes of \<^verbatim>\<open>types.tsx\<close>: \<^verbatim>\<open>"record" | "upload" | "analyze" | "play"\<close>.
\<close>

datatype Mode = Record_mode | Upload_mode | Analyze_mode | Play_mode

text \<open>
  The chess rules engine (\<^verbatim>\<open>chess.js\<close>, behind \<^verbatim>\<open>boardRef.current\<close>) is an external
  collaborator and a parameter: \<open>move_san\<close> is \<^verbatim>\<open>board.move(san)\<close>, \<open>None\<close> where the engine
  throws on a move that is not legal, and \<open>last_lan\<close> is the \<^verbatim>\<open>lan\<close> of the last entry of
  \<^verbatim>\<open>board.history({verbose: true})\<close>. \<^verbatim>\<open>board.undo()\<close> restores the board it was called on.
\<close>

record 'b chess =
  move_san :: "'b \<Rightarrow> san \<Rightarrow> 'b option"
  last_lan :: "'b \<Rightarrow> string"

definition sanToLan :: "'b chess \<Rightarrow> 'b \<Rightarrow> san \<Rightarrow> error + string" where
  "sanToLan E b n = (case move_san E b n of None \<Rightarrow> Inl IllegalMove | Some b' \<Rightarrow> Inr (last_lan E b'))"

text \<open>
  What the loop owns between cycles: \<^verbatim>\<open>possibleMoves\<close>, the timer object
  \<^verbatim>\<open>greedyMoveToTime\<close> (own properties only) and the board.
\<close>

record 'b policy =
  possibleMoves :: "san set"
  greedyMoveToTime :: "string \<rightharpoonup> real"
  board :: 'b

text \<open>
  \<^verbatim>\<open>key in greedyMoveToTime\<close> on a plain object: an own property or one inherited from
  \<^verbatim>\<open>Object.prototype\<close>.
\<close>

definition js_in_object :: "string \<Rightarrow> (string \<rightharpoonup> real) \<Rightarrow> bool" where
  "js_in_object k obj = (obj k \<noteq> None \<or> k \<in> set Object_properties)"

text \<open>
  What one cycle decided: the two flags and the payload given to \<^verbatim>\<open>dispatch\<close>, if any
  (the board and the \<^verbatim>\<open>greedy\<close> argument of \<^verbatim>\<open>makeUpdatePayload\<close>).
\<close>

record 'b decision =
  hasMove :: bool
  hasGreedyMove :: bool
  dispatched :: "('b \<times> bool) option"

text \<open>
  Lines 563 to 572: the confirmed-pair commit. An exception of \<^verbatim>\<open>board.move\<close> leaves the
  loop (the next frame is never requested), so an error ends the run.
\<close>

definition confirmed_commit ::
  "'b chess \<Rightarrow> Mode \<Rightarrow> scan \<Rightarrow> 'b policy \<Rightarrow> error + (bool \<times> 'b policy)" where
  "confirmed_commit E mode r st =
     (case bestMoves r of
        None \<Rightarrow> Inr (False, st)
      | Some joint \<Rightarrow>
          if mode \<noteq> Play_mode
          then if positive (bestScore2 r) \<and> positive (bestJointScore r)
                  \<and> sans0 joint \<in> possibleMoves st
               then (case move_san E (board st) (sans0 joint) of
                       None \<Rightarrow> Inl IllegalMove
                     | Some b' \<Rightarrow>
                         Inr (True, st\<lparr>possibleMoves := {}, greedyMoveToTime := Map.empty,
                                       board := b'\<rparr>))
               else Inr (False, st)
          else Inr (False, st))"

text \<open>
  Lines 574 to 588: the greedy commit. The timestamp is stored when the key is not
  \<^verbatim>\<open>in\<close> the object; \<^verbatim>\<open>endTime - greedyMoveToTime[move]\<close> is a number only for an own
  property (for an inherited one it is NaN and the comparison is false). \<^verbatim>\<open>sanToLan\<close> is
  called whether or not the second has elapsed.
\<close>

definition greedy_commit ::
  "'b chess \<Rightarrow> real \<Rightarrow> string \<Rightarrow> scan \<Rightarrow> bool \<Rightarrow> 'b policy \<Rightarrow> error + (bool \<times> 'b policy)" where
  "greedy_commit E endTime lastMove r confirmed st =
     (case bestMove r of
        None \<Rightarrow> Inr (False, st)
      | Some best \<Rightarrow>
          if \<not> confirmed \<and> positive (bestScore1 r)
          then let key = to_key (sans0 best);
                   timers = (if \<not> js_in_object key (greedyMoveToTime st)
                             then (greedyMoveToTime st)(key \<mapsto> endTime)
                             else greedyMoveToTime st)
               in (case sanToLan E (board st) (sans0 best) of
                     Inl e \<Rightarrow> Inl e
                   | Inr lan \<Rightarrow>
                       (case timers key of
                          None \<Rightarrow> Inr (False, st\<lparr>greedyMoveToTime := timers\<rparr>)
                        | Some first_seen \<Rightarrow>
                            if 1000 < endTime - first_seen \<and> lan \<noteq> lastMove
                            then (case move_san E (board st) (sans0 best) of
                                    None \<Rightarrow> Inl IllegalMove
                                  | Some b' \<Rightarrow>
                                      Inr (True, st\<lparr>greedyMoveToTime := [''greedyMove'' \<mapsto> first_seen],
                                                    board := b'\<rparr>))
                            else Inr (False, st\<lparr>greedyMoveToTime := timers\<rparr>)))
          else Inr (False, st))"

text \<open>Lines 563 to 596 of one cycle: both commits, then the dispatch.\<close>

definition commit_logic ::
  "'b chess \<Rightarrow> Mode \<Rightarrow> real \<Rightarrow> string \<Rightarrow> scan \<Rightarrow> 'b policy \<Rightarrow> error + ('b policy \<times> 'b decision)" where
  "commit_logic E mode endTime lastMove r st =
     (case confirmed_commit E mode r st of
        Inl e \<Rightarrow> Inl e
      | Inr (confirmed, st1) \<Rightarrow>
          (case greedy_commit E endTime lastMove r confirmed st1 of
             Inl e \<Rightarrow> Inl e
           | Inr (greedy, st2) \<Rightarrow>
               Inr (st2,
                    \<lparr>hasMove = confirmed, hasGreedyMove = greedy,
                     dispatched = (if confirmed \<or> greedy
                                   then Some (board st2, if mode = Play_mode then False else greedy)
                                   else None)\<rparr>)))"

text \<open>
  One cycle of the policy on a belief state: \<^verbatim>\<open>processState\<close>, which mutates
  \<^verbatim>\<open>possibleMoves\<close>, then the commits.
\<close>

definition policy_cycle ::
  "'b chess \<Rightarrow> Mode \<Rightarrow> grid \<Rightarrow> MovesPair list \<Rightarrow> real \<Rightarrow> string \<Rightarrow> 'b policy
   \<Rightarrow> error + ('b policy \<times> 'b decision)" where
  "policy_cycle E mode state movesPairs endTime lastMove st =
     (case processState state movesPairs (possibleMoves st) of
        Inl e \<Rightarrow> Inl e
      | Inr (r, possible) \<Rightarrow> commit_logic E mode endTime lastMove r (st\<lparr>possibleMoves := possible\<rparr>))"

text \<open>
  Successive cycles, each with its clock reading, the \<^verbatim>\<open>lastMoveRef\<close> it finds and the
  results of its scan; the decisions are collected in order.
\<close>

fun run_cycles ::
  "'b chess \<Rightarrow> Mode \<Rightarrow> (real \<times> string \<times> scan) list \<Rightarrow> 'b policy \<Rightarrow> error + ('b policy \<times> 'b decision list)" where
  "run_cycles E mode [] st = Inr (st, [])"
| "run_cycles E mode ((endTime, lastMove, r) # rest) st =
     (case commit_logic E mode endTime lastMove r st of
        Inl e \<Rightarrow> Inl e
      | Inr (st1, d) \<Rightarrow>
          (case run_cycles E mode rest st1 of
             Inl e \<Rightarrow> Inl e
           | Inr (st2, ds) \<Rightarrow> Inr (st2, d # ds)))"

text \<open>
  The joint move applied to a board, as the description of the confirmed-pair commit words
  it: every notation of the joint descriptor, in order.
\<close>

fun move_sans :: "'b chess \<Rightarrow> 'b \<Rightarrow> string list \<Rightarrow> 'b option" where
  "move_sans E b [] = Some b"
| "move_sans E b (n # ns) =
     (case move_san E b (Some n) of None \<Rightarrow> None | Some b' \<Rightarrow> move_sans E b' ns)"

text \<open>
  A small rules engine for examples: the board is the list of moves played, in long
  algebraic form; from the starting position it accepts \<^verbatim>\<open>e4\<close> and \<^verbatim>\<open>d4\<close>, and after \<^verbatim>\<open>e4\<close>
  the reply \<^verbatim>\<open>e5\<close>.
\<close>

definition opening_engine :: "string list chess" where
  "opening_engine =
     \<lparr>move_san = (\<lambda>b n. if b = [] \<and> n = Some ''e4'' then Some [''e2e4'']
                        else if b = [] \<and> n = Some ''d4'' then Some [''d2d4'']
                        else if b = [''e2e4''] \<and> n = Some ''e5'' then Some [''e2e4'', ''e7e5'']
                        else None),
      last_lan = (\<lambda>b. case rev b of [] \<Rightarrow> [] | l # _ \<Rightarrow> l)\<rparr>"


definition fresh_policy :: "string list policy" where
  "fresh_policy = \<lparr>possibleMoves = {}, greedyMoveToTime = Map.empty, board = []\<rparr>"


text \<open>Scan results in which a move and its joint pair are both evidenced.\<close>

definition sees_pair :: "MovesData \<Rightarrow> scan" where
  "sees_pair m = \<lparr>bestScore1 = Some (2 / 5), bestScore2 = Some (1 / 5),
                  bestJointScore = Some (3 / 5), bestMove = Some m, bestMoves = Some m\<rparr>"

text \<open>
  A belief state after \<^verbatim>\<open>e4\<close> and the reply \<^verbatim>\<open>e5\<close> have both been seen: a white pawn
  (class 9 here) at square 28 and a black pawn (class 3 here) at square 36 with confidence
  0.9, nothing elsewhere; and the pair of candidates for these two moves.
\<close>

definition after_e4_e5 :: grid where
  "after_e4_e5 = (zeros 64 12)[28 := (replicate 12 0)[9 := 9 / 10],
                               36 := (replicate 12 0)[3 := 9 / 10]]"

definition e5_reply :: MovesData where
  "e5_reply = \<lparr>sans = [''e5''], from_squares = [52], to_squares = [36], targets = [3]\<rparr>"

definition e4_e5_joint :: MovesData where
  "e4_e5_joint = \<lparr>sans = [''e4'', ''e5''], from_squares = [12, 52], to_squares = [28, 36],
                  targets = [9, 3]\<rparr>"

definition e4_e5_pairs :: "MovesPair list" where
  "e4_e5_pairs = [\<lparr>move1 = e4_far, move2 = Some e5_reply, moves = Some e4_e5_joint\<rparr>]"

section \<open>Move execution sequencer\<close>



datatype gripperAction = Gripper_open | Gripper_close | Gripper_stop | Gripper_move_to_width





































section \<open>Piece-base coordinate averager\<close>

text \<open>
  A coordinate is an array read at its indices 0 and 1: a pair. The module
  \<^verbatim>\<open>robotMoveExecutor\<close> keeps a map from move keys to buffers.
\<close>

type_synonym coord = "real \<times> real"

record PieceBaseBuffer =
  sourcePieceBase :: "coord list"
  capturedPieceBase :: "coord list"
  frameCount :: nat




definition clearPieceBaseBuffer :: "(string \<rightharpoonup> PieceBaseBuffer) \<Rightarrow> string \<Rightarrow> (string \<rightharpoonup> PieceBaseBuffer)" where
  "clearPieceBaseBuffer pieceBaseBuffers moveKey = pieceBaseBuffers(moveKey := None)"







text \<open>
  The buffer \<^verbatim>\<open>pieceBaseBuffer\<close> inside \<^verbatim>\<open>findPieces\<close>, and lines 663 to 733 of one cycle:
  nothing is collected without a detected source piece; a move key other than the
  buffered one resets the buffer; while collecting and below 5 frames the coordinates are
  pushed, and at the fifth frame the averages are stored with \<^verbatim>\<open>readyForExecution: true\<close>
  (the second component of the result) and collecting stops.
\<close>

record frame_buffer =
  source :: "coord list"
  captured :: "coord list"
  moveKey :: string
  collecting :: bool
  framesCollected :: nat









section \<open>Facts about the accumulator\<close>

lemma fold_update_length:
  "length (fold (\<lambda>i ys. ys[i := f i ys]) is xs) = length xs"
  by (induction "is" arbitrary: xs) simp_all

lemma fold_update_nth:
  "n \<le> length xs \<Longrightarrow>
   fold (\<lambda>i ys. ys[i := f i (ys ! i)]) [0..<n] xs ! k = (if k < n then f k (xs ! k) else xs ! k)"
proof (induction n arbitrary: k)
  case 0
  then show ?case by simp
next
  case (Suc n)
  let ?ys = "fold (\<lambda>i ys. ys[i := f i (ys ! i)]) [0..<n] xs"
  have len: "length ?ys = length xs"
    by (rule fold_update_length [where f = "\<lambda>i ys. f i (ys ! i)"])
  have IH: "?ys ! j = (if j < n then f j (xs ! j) else xs ! j)" for j
    using Suc by simp
  have "fold (\<lambda>i ys. ys[i := f i (ys ! i)]) [0..<Suc n] xs ! k = (?ys[n := f n (?ys ! n)]) ! k"
    by simp
  also have "\<dots> = (if k = n then f n (xs ! n) else ?ys ! k)"
    using Suc.prems len by (simp add: IH nth_list_update)
  also have "\<dots> = (if k < Suc n then f k (xs ! k) else xs ! k)"
    by (auto simp: IH less_Suc_eq)
  finally show ?case .
qed

lemma updateRow_nth:
  "12 \<le> length srow \<Longrightarrow> c < 12 \<Longrightarrow>
   updateRow decay urow srow ! c = decay * srow ! c + (1 - decay) * urow ! c"
  unfolding updateRow_def
  by (simp add: fold_update_nth [where f = "\<lambda>j v. decay * v + (1 - decay) * urow ! j"])

lemma updateRows_nth:
  "64 \<le> length state \<Longrightarrow> s < 64 \<Longrightarrow>
   updateRows decay update state ! s = updateRow decay (update ! s) (state ! s)"
  unfolding updateRows_def
  by (simp add: fold_update_nth [where f = "\<lambda>i row. updateRow decay (update ! i) row"])

lemma has_cells_row: "has_cells g \<Longrightarrow> s < 64 \<Longrightarrow> 12 \<le> length (g ! s)"
  by (auto simp: has_cells_def list_all_length)

lemma updateRows_cell:
  assumes "has_cells state" and "s < 64" and "c < 12"
  shows "updateRows decay update state ! s ! c
         = decay * state ! s ! c + (1 - decay) * update ! s ! c"
proof -
  have "64 \<le> length state"
    using assms(1) by (simp add: has_cells_def)
  then have "updateRows decay update state ! s = updateRow decay (update ! s) (state ! s)"
    using assms(2) by (rule updateRows_nth)
  moreover have "12 \<le> length (state ! s)"
    using assms(1,2) by (rule has_cells_row)
  ultimately show ?thesis
    using assms(3) by (simp add: updateRow_nth)
qed

lemma updateState_Inr:
  "has_cells state \<Longrightarrow> has_cells update \<Longrightarrow>
   updateState state update decay = Inr (updateRows decay update state)"
  by (simp add: updateState_def has_cells_def)

lemma has_cells_zeros: "has_cells (zeros 64 12)"
  by (simp add: has_cells_def zeros_def list_all_length)

lemma has_cells_one_detection: "has_cells (one_detection s c v)"
proof -
  have "12 \<le> length (one_detection s c v ! n)" if "n < 64" for n
    using that by (cases "n = s") (simp_all add: one_detection_def zeros_def)
  then show ?thesis
    by (simp add: has_cells_def list_all_length one_detection_def zeros_def)
qed

lemma has_cells_updateRows: "has_cells state \<Longrightarrow> has_cells (updateRows decay update state)"
proof -
  assume h: "has_cells state"
  have len: "length (updateRows decay update state) = length state"
    unfolding updateRows_def
    by (rule fold_update_length [where f = "\<lambda>i st. updateRow decay (update ! i) (st ! i)"])
  have row: "length (updateRow decay u r) = length r" for u r
    unfolding updateRow_def
    by (rule fold_update_length [where f = "\<lambda>j row. decay * row ! j + (1 - decay) * u ! j"])
  have "12 \<le> length (updateRows decay update state ! s)" if "s < 64" for s
  proof -
    have "64 \<le> length state" using h by (simp add: has_cells_def)
    then have "updateRows decay update state ! s = updateRow decay (update ! s) (state ! s)"
      using that by (rule updateRows_nth)
    then show ?thesis
      using has_cells_row [OF h that] by (simp add: row)
  qed
  then show ?thesis
    using h len by (simp add: has_cells_def list_all_length)
qed

lemma zeros_cell: "s < 64 \<Longrightarrow> c < 12 \<Longrightarrow> zeros 64 12 ! s ! c = 0"
  by (simp add: zeros_def)

lemma one_detection_cell: "s < 64 \<Longrightarrow> c < 12 \<Longrightarrow> one_detection s c v ! s ! c = v"
  by (simp add: one_detection_def zeros_def)

text \<open>
  Claim C5. For grids that have the 64 by 12 cells, \<^verbatim>\<open>updateState\<close> returns a state whose
  cell \<open>(s, c)\<close> is \<open>decay * state[s][c] + (1 - decay) * update[s][c]\<close> for every square
  \<open>s < 64\<close> and class \<open>c < 12\<close>. Starting from the all-zero state, with a detection of 0.9
  at square 12 for one class \<open>c\<close> (the index of "white pawn" is fixed by a table that is
  not among the sources, so \<open>c\<close> is any class) and decay 0.5, one update gives 0.45 at
  that cell and a second identical update gives 0.675.
\<close>

theorem updateState_formula:
  assumes "has_cells state" and "has_cells update" and "c < 12"
  shows "(\<exists>st'. updateState state update decay = Inr st'
           \<and> (\<forall>s < 64. \<forall>k < 12. st' ! s ! k = decay * state ! s ! k + (1 - decay) * update ! s ! k))
       \<and> (\<exists>s1 s2. updateState_default (zeros 64 12) (one_detection 12 c (9 / 10)) = Inr s1
           \<and> s1 ! 12 ! c = 45 / 100
           \<and> updateState_default s1 (one_detection 12 c (9 / 10)) = Inr s2
           \<and> s2 ! 12 ! c = 675 / 1000)"
proof
  show "\<exists>st'. updateState state update decay = Inr st'
           \<and> (\<forall>s < 64. \<forall>k < 12. st' ! s ! k = decay * state ! s ! k + (1 - decay) * update ! s ! k)"
    using assms(1,2) by (simp add: updateState_Inr updateRows_cell)
next
  let ?u = "one_detection 12 c (9 / 10)"
  let ?s1 = "updateRows (1 / 2) ?u (zeros 64 12)"
  let ?s2 = "updateRows (1 / 2) ?u ?s1"
  have u: "has_cells ?u"
    by (rule has_cells_one_detection)
  have h1: "has_cells ?s1"
    using has_cells_zeros by (rule has_cells_updateRows)
  have r1: "updateState_default (zeros 64 12) ?u = Inr ?s1"
    unfolding updateState_default_def using has_cells_zeros u by (rule updateState_Inr)
  have r2: "updateState_default ?s1 ?u = Inr ?s2"
    unfolding updateState_default_def using h1 u by (rule updateState_Inr)
  have c1: "?s1 ! 12 ! c = 45 / 100"
    using assms(3) by (simp add: updateRows_cell has_cells_zeros zeros_cell one_detection_cell)
  have c2: "?s2 ! 12 ! c = 675 / 1000"
    using assms(3) by (simp add: updateRows_cell [OF h1] c1 one_detection_cell)
  show "\<exists>s1 s2. updateState_default (zeros 64 12) ?u = Inr s1
           \<and> s1 ! 12 ! c = 45 / 100
           \<and> updateState_default s1 ?u = Inr s2
           \<and> s2 ! 12 ! c = 675 / 1000"
    using r1 r2 c1 c2 by blast
qed

text \<open>The formula at the all-zero state and the scenario's detection, class 9.\<close>

theorem updateState_formula_witness:
  "has_cells (zeros 64 12) \<and> has_cells (one_detection 12 9 (9 / 10)) \<and> (9::nat) < 12
   \<and> (\<exists>st'. updateState (zeros 64 12) (one_detection 12 9 (9 / 10)) (1 / 2) = Inr st'
        \<and> st' ! 12 ! 9 = 45 / 100)"
proof -
  have a: "has_cells (zeros 64 12)" by (rule has_cells_zeros)
  have b: "has_cells (one_detection 12 9 (9 / 10))" by (rule has_cells_one_detection)
  have c: "(9::nat) < 12" by simp
  from updateState_formula [OF a b c, of "1 / 2"]
  obtain st' where r: "updateState (zeros 64 12) (one_detection 12 9 (9 / 10)) (1 / 2) = Inr st'"
    and f: "\<forall>s < 64. \<forall>k < 12. st' ! s ! k
              = (1 / 2) * zeros 64 12 ! s ! k + (1 - 1 / 2) * one_detection 12 9 (9 / 10) ! s ! k"
    by blast
  from f have "st' ! 12 ! 9 = (1 / 2) * zeros 64 12 ! 12 ! 9 + (1 - 1 / 2) * one_detection 12 9 (9 / 10) ! 12 ! 9"
    by simp
  then have "st' ! 12 ! 9 = 45 / 100"
    by (simp add: zeros_cell one_detection_cell)
  with a b c r show ?thesis by blast
qed

text \<open>
  Claim C10. For a decay in \<open>[0, 1]\<close>, if every cell of the belief state and of the
  detection update lies in \<open>[0, 1]\<close>, then \<^verbatim>\<open>updateState\<close> returns a state whose cells
  all lie in \<open>[0, 1]\<close> (so none is negative), and when the detection update is zero
  everywhere each cell of the result lies between 0 and the cell it replaces.
\<close>

theorem updateState_unit_interval:
  assumes "0 \<le> decay" and "decay \<le> 1"
    and "has_cells state" and "has_cells update"
    and "in_unit state" and "in_unit update"
  shows "\<exists>st'. updateState state update decay = Inr st' \<and> in_unit st'
           \<and> ((\<forall>s < 64. \<forall>c < 12. update ! s ! c = 0) \<longrightarrow>
                (\<forall>s < 64. \<forall>c < 12. 0 \<le> st' ! s ! c \<and> st' ! s ! c \<le> state ! s ! c))"
proof -
  let ?st = "updateRows decay update state"
  have r: "updateState state update decay = Inr ?st"
    using assms(3,4) by (rule updateState_Inr)
  have cell: "?st ! s ! c = decay * state ! s ! c + (1 - decay) * update ! s ! c"
    if "s < 64" "c < 12" for s c
    using assms(3) that by (rule updateRows_cell)
  have unit: "0 \<le> ?st ! s ! c \<and> ?st ! s ! c \<le> 1" if "s < 64" "c < 12" for s c
  proof -
    have a: "0 \<le> state ! s ! c" "state ! s ! c \<le> 1"
      using assms(5) that by (simp_all add: in_unit_def)
    have b: "0 \<le> update ! s ! c" "update ! s ! c \<le> 1"
      using assms(6) that by (simp_all add: in_unit_def)
    have d: "0 \<le> 1 - decay" using assms(2) by simp
    have lo: "0 \<le> decay * state ! s ! c + (1 - decay) * update ! s ! c"
      using assms(1) d a(1) b(1) by simp
    have hi: "decay * state ! s ! c + (1 - decay) * update ! s ! c \<le> 1"
      using a(2) b(2) assms(1) d by (rule convex_bound_le) simp
    show ?thesis
      using lo hi by (simp add: cell [OF that])
  qed
  have shrink: "0 \<le> ?st ! s ! c \<and> ?st ! s ! c \<le> state ! s ! c"
    if z: "\<forall>s < 64. \<forall>c < 12. update ! s ! c = 0" and "s < 64" "c < 12" for s c
  proof -
    have a: "0 \<le> state ! s ! c"
      using assms(5) that(2,3) by (simp add: in_unit_def)
    have e: "?st ! s ! c = decay * state ! s ! c"
      using z that(2,3) by (simp add: cell)
    have "decay * state ! s ! c \<le> 1 * state ! s ! c"
      using assms(2) a by (rule mult_right_mono)
    then show ?thesis
      using assms(1) a e by simp
  qed
  show ?thesis
    using r unit shrink unfolding in_unit_def by blast
qed

theorem updateState_unit_interval_witness:
  "(0::real) \<le> 1 / 2 \<and> (1 / 2 :: real) \<le> 1
   \<and> has_cells (zeros 64 12) \<and> has_cells (one_detection 12 9 (9 / 10))
   \<and> in_unit (zeros 64 12) \<and> in_unit (one_detection 12 9 (9 / 10))
   \<and> (\<exists>st'. updateState (zeros 64 12) (one_detection 12 9 (9 / 10)) (1 / 2) = Inr st' \<and> in_unit st')"
proof -
  have d: "(0::real) \<le> 1 / 2" "(1 / 2 :: real) \<le> 1" by simp_all
  have a: "has_cells (zeros 64 12)" by (rule has_cells_zeros)
  have b: "has_cells (one_detection 12 9 (9 / 10))" by (rule has_cells_one_detection)
  have ia: "in_unit (zeros 64 12)"
    by (simp add: in_unit_def zeros_cell)
  have ib: "in_unit (one_detection 12 9 (9 / 10))"
    unfolding in_unit_def
  proof (intro allI impI)
    fix s c :: nat
    assume "s < 64" "c < 12"
    then show "0 \<le> one_detection 12 9 (9 / 10) ! s ! c \<and> one_detection 12 9 (9 / 10) ! s ! c \<le> 1"
      by (cases "s = 12"; cases "c = 9") (simp_all add: one_detection_def zeros_def)
  qed
  from updateState_unit_interval [OF d a b ia ib]
  show ?thesis
    using d a b ia ib by blast
qed

section \<open>Facts about the scorer\<close>

lemma Math_max_Max: "row \<noteq> [] \<Longrightarrow> Math_max row = Some (Max (set row))"
proof (cases row)
  case Nil
  assume "row \<noteq> []"
  with Nil show ?thesis by simp
next
  case (Cons v vs)
  have "Max (set (v # vs)) = fold max vs v"
    by (rule Max.set_eq_fold)
  with Cons show ?thesis
    by (simp add: Math_max_def)
qed

lemma map2_by_index:
  "length ys = length xs \<Longrightarrow>
   map (\<lambda>(x, y). f x y) (zip xs ys) = map (\<lambda>i. f (xs ! i) (ys ! i)) [0..<length xs]"
  by (auto intro!: nth_equalityI)

lemma score_from_sum:
  assumes "\<forall>sq \<in> set sqs. sq < length state \<and> state ! sq \<noteq> []"
  shows "score_from state thr sqs acc
         = Inr (acc + (\<Sum>sq \<leftarrow> sqs. 1 - Max (set (state ! sq)) - thr))"
  using assms
proof (induction sqs arbitrary: acc)
  case Nil
  then show ?case by simp
next
  case (Cons sq sqs)
  then show ?case
    by (simp add: Math_max_Max add.assoc)
qed

lemma score_to_sum:
  assumes "length tgs = length sqs"
    and "\<forall>(sq, t) \<in> set (zip sqs tgs). sq < length state \<and> t < length (state ! sq)"
  shows "score_to state thr sqs tgs acc
         = Inr (acc + (\<Sum>(sq, t) \<leftarrow> zip sqs tgs. state ! sq ! t - thr))"
  using assms
proof (induction sqs arbitrary: tgs acc)
  case Nil
  then show ?case by simp
next
  case (Cons sq sqs)
  then obtain t tgs' where tgs: "tgs = t # tgs'"
    by (cases tgs) auto
  with Cons show ?case
    by (simp add: add.assoc)
qed

lemma calculateScore_value:
  assumes "has_cells state" and "candidate m"
  shows "calculateScore state m from_thr to_thr
         = Inr ((\<Sum>sq \<leftarrow> from_squares m. 1 - Max (set (state ! sq)) - from_thr)
              + (\<Sum>(sq, t) \<leftarrow> zip (to_squares m) (targets m). state ! sq ! t - to_thr))"
proof -
  have len: "64 \<le> length state"
    using assms(1) by (simp add: has_cells_def)
  have from_ok: "\<forall>sq \<in> set (from_squares m). sq < length state \<and> state ! sq \<noteq> []"
  proof
    fix sq assume "sq \<in> set (from_squares m)"
    then have "sq < 64"
      using assms(2) by (auto simp: candidate_def list_all_iff)
    moreover from this have "12 \<le> length (state ! sq)"
      using assms(1) by (simp add: has_cells_row)
    ultimately show "sq < length state \<and> state ! sq \<noteq> []"
      using len by auto
  qed
  have to_ok: "\<forall>(sq, t) \<in> set (zip (to_squares m) (targets m)).
                 sq < length state \<and> t < length (state ! sq)"
  proof (clarify)
    fix sq t assume "(sq, t) \<in> set (zip (to_squares m) (targets m))"
    then have "sq \<in> set (to_squares m)" "t \<in> set (targets m)"
      by (auto dest: set_zip_leftD set_zip_rightD)
    then have "sq < 64" "t < 12"
      using assms(2) by (auto simp: candidate_def list_all_iff)
    moreover from this have "12 \<le> length (state ! sq)"
      using assms(1) by (simp add: has_cells_row)
    ultimately show "sq < length state \<and> t < length (state ! sq)"
      using len by auto
  qed
  have eq: "length (targets m) = length (to_squares m)"
    using assms(2) by (simp add: candidate_def)
  show ?thesis
    by (simp add: calculateScore_def score_from_sum [OF from_ok] score_to_sum [OF eq to_ok])
qed

lemma zeros_row: "s < 64 \<Longrightarrow> zeros 64 12 ! s = replicate 12 0"
  by (simp add: zeros_def)

lemma Max_zero_row: "Max (set (replicate 12 (0::real))) = 0"
  by simp

lemma candidate_e4_far: "candidate e4_far"
  by (simp add: candidate_def e4_far_def)

lemma candidate_e4_near: "candidate e4_near"
  by (simp add: candidate_def e4_near_def)

lemma score_e4_far: "calculateScore_default (zeros 64 12) e4_far = Inr (- (2 / 10))"
  unfolding calculateScore_default_def
  by (simp add: calculateScore_value [OF has_cells_zeros candidate_e4_far])
     (simp add: e4_far_def zeros_row)

lemma score_e4_near: "calculateScore_default (zeros 64 12) e4_near = Inr (4 / 10)"
  unfolding calculateScore_default_def
  by (simp add: calculateScore_value [OF has_cells_zeros candidate_e4_near])
     (simp add: e4_near_def zeros_row)

text \<open>
  Claim C4. For every belief state with its 64 by 12 cells and every move candidate of
  the board, \<^verbatim>\<open>calculateScore\<close> returns (it neither throws nor leaves the finite numbers)
  the sum over the from-squares of \<open>1 - max\<^sub>c state[sq][c] - from_thr\<close> plus the sum over
  \<open>i\<close> of \<open>state[to[i]][targets[i]] - to_thr\<close>; the default thresholds are both 0.6.
\<close>

theorem calculateScore_formula:
  assumes "has_cells state" and "candidate m"
  shows "calculateScore state m from_thr to_thr
         = Inr ((\<Sum>sq \<leftarrow> from_squares m. 1 - Max (set (state ! sq)) - from_thr)
              + (\<Sum>i \<leftarrow> [0..<length (to_squares m)].
                    state ! (to_squares m ! i) ! (targets m ! i) - to_thr))
       \<and> calculateScore_default state m = calculateScore state m (6 / 10) (6 / 10)"
proof -
  have eq: "length (targets m) = length (to_squares m)"
    using assms(2) by (simp add: candidate_def)
  have "(\<Sum>(sq, t) \<leftarrow> zip (to_squares m) (targets m). state ! sq ! t - to_thr)
        = (\<Sum>i \<leftarrow> [0..<length (to_squares m)].
              state ! (to_squares m ! i) ! (targets m ! i) - to_thr)"
    using map2_by_index [OF eq, of "\<lambda>sq t. state ! sq ! t - to_thr"] by simp
  then show ?thesis
    by (simp add: calculateScore_value [OF assms] calculateScore_default_def)
qed

theorem calculateScore_formula_witness:
  "has_cells (zeros 64 12) \<and> candidate e4_far
   \<and> calculateScore (zeros 64 12) e4_far (6 / 10) (6 / 10) = Inr (- (2 / 10))"
proof -
  have a: "has_cells (zeros 64 12)" by (rule has_cells_zeros)
  have b: "candidate e4_far" by (rule candidate_e4_far)
  have "calculateScore (zeros 64 12) e4_far (6 / 10) (6 / 10) = Inr (- (2 / 10))"
    using calculateScore_formula [OF a b, of "6 / 10" "6 / 10"]
    by (simp add: e4_far_def zeros_row)
  with a b show ?thesis by simp
qed

section \<open>Facts about the scan of the candidates\<close>

lemma e4_not_a_property: "\<not> js_in_Set (Some ''e4'') seen"
  by (simp add: js_in_Set_def to_key_def Set_properties_def Object_properties_def)

lemma sans0_e4: "sans0 e4_far = Some ''e4''" "sans0 e4_near = Some ''e4''"
  by (simp_all add: sans0_def e4_far_def e4_near_def)

text \<open>
  Claim C8 (the code departs from it). The claim: a pair whose \<^verbatim>\<open>move1\<close> notation was seen
  earlier in the cycle is skipped by the first-move scoring step. The source builds the
  set \<^verbatim>\<open>seen\<close> and adds each notation to it, but tests \<^verbatim>\<open>notation in seen\<close>, which asks for
  a property of the \<^verbatim>\<open>Set\<close> object and is false for a notation such as \<^verbatim>\<open>e4\<close> whatever the
  set holds. On the all-zero state, with two pairs whose first moves are both written
  \<^verbatim>\<open>e4\<close> and the second of which scores higher, the second pair is scored again: it
  becomes \<^verbatim>\<open>bestMove\<close> and enters \<^verbatim>\<open>possibleMoves\<close>, although \<^verbatim>\<open>e4\<close> was already in \<^verbatim>\<open>seen\<close>.
\<close>

theorem processState_scores_seen_notation_again:
  "js_in_Set (sans0 e4_near) {sans0 e4_far} = False
   \<and> processState (zeros 64 12) same_notation_pairs {}
     = Inr (no_scan\<lparr>bestMove := Some e4_near, bestScore1 := Some (2 / 5)\<rparr>, {Some ''e4''})"
proof -
  have 1: "first_move (zeros 64 12) \<lparr>move1 = e4_far, move2 = None, moves = None\<rparr> (no_scan, {}, {})
           = Inr (no_scan\<lparr>bestMove := Some e4_far, bestScore1 := Some (- (1 / 5))\<rparr>, {}, {Some ''e4''})"
    by (simp add: first_move_def sans0_e4 e4_not_a_property score_e4_far exceeds_def no_scan_def)
  have 2: "first_move (zeros 64 12) \<lparr>move1 = e4_near, move2 = None, moves = None\<rparr>
             (no_scan\<lparr>bestMove := Some e4_far, bestScore1 := Some (- (1 / 5))\<rparr>, {}, {Some ''e4''})
           = Inr (no_scan\<lparr>bestMove := Some e4_near, bestScore1 := Some (2 / 5)\<rparr>,
                  {Some ''e4''}, {Some ''e4''})"
    by (simp add: first_move_def sans0_e4 e4_not_a_property score_e4_near exceeds_def no_scan_def)
  have 3: "second_move state \<lparr>move1 = m, move2 = None, moves = None\<rparr> acc = Inr acc" for state m acc
    by (simp add: second_move_def split: prod.splits)
  show ?thesis
    by (simp add: processState_def same_notation_pairs_def 1 2 3 sans0_e4 e4_not_a_property)
qed

section \<open>Facts about the commits\<close>

lemma confirmed_commit_cases:
  "confirmed_commit E mode r st = Inr (c, st1) \<Longrightarrow>
   (c \<longleftrightarrow> mode \<noteq> Play_mode \<and> (\<exists>j. bestMoves r = Some j \<and> positive (bestScore2 r)
              \<and> positive (bestJointScore r) \<and> sans0 j \<in> possibleMoves st))
   \<and> (c \<longrightarrow> (\<exists>j. bestMoves r = Some j \<and> move_san E (board st) (sans0 j) = Some (board st1))
            \<and> possibleMoves st1 = {} \<and> greedyMoveToTime st1 = Map.empty)
   \<and> (\<not> c \<longrightarrow> st1 = st)"
  by (auto simp: confirmed_commit_def split: option.splits if_splits)

lemma greedy_commit_confirmed:
  "greedy_commit E t lm r True st = Inr (False, st)"
  by (simp add: greedy_commit_def split: option.splits)

lemma greedy_commit_cases:
  assumes "greedy_commit E t lm r c st = Inr (g, st')"
  shows "(g \<longleftrightarrow> \<not> c \<and> positive (bestScore1 r) \<and> (\<exists>best first_seen lan. bestMove r = Some best
             \<and> greedyMoveToTime st (to_key (sans0 best)) = Some first_seen
             \<and> 1000 < t - first_seen
             \<and> sanToLan E (board st) (sans0 best) = Inr lan \<and> lan \<noteq> lm))"
    and "g \<Longrightarrow> \<exists>best first_seen. bestMove r = Some best
             \<and> greedyMoveToTime st (to_key (sans0 best)) = Some first_seen
             \<and> move_san E (board st) (sans0 best) = Some (board st')
             \<and> greedyMoveToTime st' = [''greedyMove'' \<mapsto> first_seen]
             \<and> possibleMoves st' = possibleMoves st"
    and "\<not> g \<Longrightarrow> board st' = board st \<and> possibleMoves st' = possibleMoves st"
  using assms
  by (auto simp: greedy_commit_def Let_def js_in_object_def split: option.splits if_splits sum.splits)

lemma commit_logic_split:
  assumes "commit_logic E mode t lm r st = Inr (st', d)"
  obtains c st1 g where "confirmed_commit E mode r st = Inr (c, st1)"
    and "greedy_commit E t lm r c st1 = Inr (g, st')"
    and "hasMove d = c" and "hasGreedyMove d = g"
    and "dispatched d = (if c \<or> g then Some (board st', if mode = Play_mode then False else g) else None)"
  using assms by (auto simp: commit_logic_def split: sum.splits prod.splits)

lemma opening_e4: "move_san opening_engine [] (Some ''e4'') = Some [''e2e4'']"
  by (simp add: opening_engine_def)


lemma opening_d4: "move_san opening_engine [] (Some ''d4'') = Some [''d2d4'']"
  by (simp add: opening_engine_def)

lemma opening_lan: "sanToLan opening_engine [] (Some ''e4'') = Inr ''e2e4''"
  "sanToLan opening_engine [] (Some ''d4'') = Inr ''d2d4''"
  by (simp_all add: sanToLan_def opening_engine_def)

lemma has_cells_after: "has_cells after_e4_e5"
proof -
  have "12 \<le> length (after_e4_e5 ! n)" if "n < 64" for n
    using that by (cases "n = 28"; cases "n = 36") (simp_all add: after_e4_e5_def zeros_def)
  then show ?thesis
    by (simp add: has_cells_def list_all_length after_e4_e5_def zeros_def)
qed

lemma after_rows:
  "after_e4_e5 ! 12 = replicate 12 0" "after_e4_e5 ! 52 = replicate 12 0"
  "after_e4_e5 ! 28 ! 9 = 9 / 10" "after_e4_e5 ! 36 ! 3 = 9 / 10"
  by (simp_all add: after_e4_e5_def zeros_def)

lemma after_scores:
  "calculateScore_default after_e4_e5 e4_far = Inr (7 / 10)"
  "calculateScore_default after_e4_e5 e5_reply = Inr (7 / 10)"
  "calculateScore_default after_e4_e5 e4_e5_joint = Inr (7 / 5)"
proof -
  have c: "candidate e4_far" "candidate e5_reply" "candidate e4_e5_joint"
    by (simp_all add: candidate_def e4_far_def e5_reply_def e4_e5_joint_def)
  show "calculateScore_default after_e4_e5 e4_far = Inr (7 / 10)"
    unfolding calculateScore_default_def calculateScore_value [OF has_cells_after c(1)]
    by (simp add: e4_far_def after_rows)
  show "calculateScore_default after_e4_e5 e5_reply = Inr (7 / 10)"
    unfolding calculateScore_default_def calculateScore_value [OF has_cells_after c(2)]
    by (simp add: e5_reply_def after_rows)
  show "calculateScore_default after_e4_e5 e4_e5_joint = Inr (7 / 5)"
    unfolding calculateScore_default_def calculateScore_value [OF has_cells_after c(3)]
    by (simp add: e4_e5_joint_def after_rows)
qed

lemma sans0_joint: "sans0 e4_e5_joint = Some ''e4''"
  by (simp add: sans0_def e4_e5_joint_def)

lemma scan_after:
  "processState after_e4_e5 e4_e5_pairs {}
   = Inr (\<lparr>bestScore1 = Some (7 / 10), bestScore2 = Some (7 / 10), bestJointScore = Some (7 / 5),
           bestMove = Some e4_far, bestMoves = Some e4_e5_joint\<rparr>, {Some ''e4''})"
  by (simp add: processState_def e4_e5_pairs_def first_move_def second_move_def sans0_e4
      e4_not_a_property after_scores exceeds_def no_scan_def)

lemma policy_cycle_split:
  assumes "policy_cycle E mode state pairs t lm st = Inr (st', d)"
  obtains r possible where "processState state pairs (possibleMoves st) = Inr (r, possible)"
    and "commit_logic E mode t lm r (st\<lparr>possibleMoves := possible\<rparr>) = Inr (st', d)"
  using assms by (auto simp: policy_cycle_def split: sum.splits prod.splits)

lemma commit_logic_confirmed:
  "(commit_logic E mode t lm r st = Inr (st', d) \<longrightarrow>
      (hasMove d \<longleftrightarrow> mode \<noteq> Play_mode \<and> (\<exists>j. bestMoves r = Some j \<and> positive (bestScore2 r)
              \<and> positive (bestJointScore r) \<and> sans0 j \<in> possibleMoves st))
      \<and> (hasMove d \<longrightarrow> (\<exists>j. bestMoves r = Some j \<and> move_san E (board st) (sans0 j) = Some (board st'))
            \<and> possibleMoves st' = {} \<and> greedyMoveToTime st' = Map.empty \<and> \<not> hasGreedyMove d))
   \<and> (mode \<noteq> Play_mode \<and> bestMoves r = Some j \<and> positive (bestScore2 r) \<and> positive (bestJointScore r)
        \<and> sans0 j \<in> possibleMoves st \<and> move_san E (board st) (sans0 j) = Some b' \<longrightarrow>
      commit_logic E mode t lm r st
        = Inr (st\<lparr>possibleMoves := {}, greedyMoveToTime := Map.empty, board := b'\<rparr>,
               \<lparr>hasMove = True, hasGreedyMove = False, dispatched = Some (b', False)\<rparr>))"
proof -
  have fwd: "(hasMove d \<longleftrightarrow> mode \<noteq> Play_mode \<and> (\<exists>j. bestMoves r = Some j \<and> positive (bestScore2 r)
              \<and> positive (bestJointScore r) \<and> sans0 j \<in> possibleMoves st))
      \<and> (hasMove d \<longrightarrow> (\<exists>j. bestMoves r = Some j \<and> move_san E (board st) (sans0 j) = Some (board st'))
            \<and> possibleMoves st' = {} \<and> greedyMoveToTime st' = Map.empty \<and> \<not> hasGreedyMove d)"
    if a: "commit_logic E mode t lm r st = Inr (st', d)"
  proof -
    from a obtain c st1 g where 1: "confirmed_commit E mode r st = Inr (c, st1)"
      and 2: "greedy_commit E t lm r c st1 = Inr (g, st')"
      and 3: "hasMove d = c" "hasGreedyMove d = g"
      by (auto simp: commit_logic_def split: sum.splits prod.splits)
    note cc = confirmed_commit_cases [OF 1]
    have "g = False \<and> st' = st1" if c
      using that 2 by (simp add: greedy_commit_confirmed)
    then show ?thesis
      using cc 3 by auto
  qed
  have bwd: "commit_logic E mode t lm r st
        = Inr (st\<lparr>possibleMoves := {}, greedyMoveToTime := Map.empty, board := b'\<rparr>,
               \<lparr>hasMove = True, hasGreedyMove = False, dispatched = Some (b', False)\<rparr>)"
    if "mode \<noteq> Play_mode \<and> bestMoves r = Some j \<and> positive (bestScore2 r) \<and> positive (bestJointScore r)
        \<and> sans0 j \<in> possibleMoves st \<and> move_san E (board st) (sans0 j) = Some b'"
    using that by (simp add: commit_logic_def confirmed_commit_def greedy_commit_confirmed)
  show ?thesis
    using fwd bwd by blast
qed

lemma e4_e5_cycle:
  "policy_cycle opening_engine Record_mode after_e4_e5 e4_e5_pairs 40 [] fresh_policy
   = Inr (\<lparr>possibleMoves = {}, greedyMoveToTime = Map.empty, board = [''e2e4'']\<rparr>,
          \<lparr>hasMove = True, hasGreedyMove = False, dispatched = Some ([''e2e4''], False)\<rparr>)"
proof -
  have "processState after_e4_e5 e4_e5_pairs (possibleMoves fresh_policy)
     = Inr (\<lparr>bestScore1 = Some (7 / 10), bestScore2 = Some (7 / 10), bestJointScore = Some (7 / 5),
             bestMove = Some e4_far, bestMoves = Some e4_e5_joint\<rparr>, {Some ''e4''})"
    using scan_after by (simp add: fresh_policy_def)
  then show ?thesis
    by (simp add: policy_cycle_def commit_logic_def confirmed_commit_def greedy_commit_confirmed
        positive_def sans0_joint fresh_policy_def opening_e4)
qed

text \<open>
  Claim C2 (amended). In a cycle that returns, with \<^verbatim>\<open>possibleMoves\<close> as \<^verbatim>\<open>processState\<close>
  leaves it, the confirmed-pair commit fires (\<^verbatim>\<open>hasMove\<close>) exactly when the mode is not
  "play", \<^verbatim>\<open>bestMoves\<close> is not null, \<^verbatim>\<open>bestScore2 > 0\<close>, \<^verbatim>\<open>bestJointScore > 0\<close> and the first
  notation of the joint move is in \<^verbatim>\<open>possibleMoves\<close>; when it fires that first notation, and
  it alone, has been applied to the board (\<^verbatim>\<open>board.move(bestMoves.sans[0])\<close>),
  \<^verbatim>\<open>possibleMoves\<close> and the timer map are empty and no greedy commit happens. Conversely,
  when the five conditions hold and the rules engine accepts the move, the cycle returns
  with exactly that effect. When one of the conditions fails there is no confirmed-pair
  commit.
\<close>

theorem confirmed_pair_commit:
  "(policy_cycle E mode state pairs t lm st = Inr (st', d) \<longrightarrow>
      (\<exists>r possible. processState state pairs (possibleMoves st) = Inr (r, possible)
         \<and> (hasMove d \<longleftrightarrow> mode \<noteq> Play_mode
               \<and> (\<exists>j. bestMoves r = Some j \<and> positive (bestScore2 r)
                      \<and> positive (bestJointScore r) \<and> sans0 j \<in> possible))
         \<and> (hasMove d \<longrightarrow>
               (\<exists>j. bestMoves r = Some j \<and> move_san E (board st) (sans0 j) = Some (board st'))
               \<and> possibleMoves st' = {} \<and> greedyMoveToTime st' = Map.empty
               \<and> \<not> hasGreedyMove d)))
   \<and> (processState state pairs (possibleMoves st) = Inr (r, possible)
        \<and> mode \<noteq> Play_mode \<and> bestMoves r = Some j \<and> positive (bestScore2 r)
        \<and> positive (bestJointScore r) \<and> sans0 j \<in> possible
        \<and> move_san E (board st) (sans0 j) = Some b' \<longrightarrow>
      policy_cycle E mode state pairs t lm st
        = Inr (st\<lparr>possibleMoves := {}, greedyMoveToTime := Map.empty, board := b'\<rparr>,
               \<lparr>hasMove = True, hasGreedyMove = False, dispatched = Some (b', False)\<rparr>))"
proof -
  have fwd: "\<exists>r possible. processState state pairs (possibleMoves st) = Inr (r, possible)
         \<and> (hasMove d \<longleftrightarrow> mode \<noteq> Play_mode
               \<and> (\<exists>j. bestMoves r = Some j \<and> positive (bestScore2 r)
                      \<and> positive (bestJointScore r) \<and> sans0 j \<in> possible))
         \<and> (hasMove d \<longrightarrow>
               (\<exists>j. bestMoves r = Some j \<and> move_san E (board st) (sans0 j) = Some (board st'))
               \<and> possibleMoves st' = {} \<and> greedyMoveToTime st' = Map.empty
               \<and> \<not> hasGreedyMove d)"
    if "policy_cycle E mode state pairs t lm st = Inr (st', d)"
  proof -
    from that obtain r possible
      where scan: "processState state pairs (possibleMoves st) = Inr (r, possible)"
        and commit: "commit_logic E mode t lm r (st\<lparr>possibleMoves := possible\<rparr>) = Inr (st', d)"
      by (rule policy_cycle_split)
    from commit_logic_confirmed [of E mode t lm r "st\<lparr>possibleMoves := possible\<rparr>" st' d]
    have "commit_logic E mode t lm r (st\<lparr>possibleMoves := possible\<rparr>) = Inr (st', d) \<longrightarrow>
      (hasMove d \<longleftrightarrow> mode \<noteq> Play_mode \<and> (\<exists>j. bestMoves r = Some j \<and> positive (bestScore2 r)
              \<and> positive (bestJointScore r) \<and> sans0 j \<in> possibleMoves (st\<lparr>possibleMoves := possible\<rparr>)))
      \<and> (hasMove d \<longrightarrow> (\<exists>j. bestMoves r = Some j
                \<and> move_san E (board (st\<lparr>possibleMoves := possible\<rparr>)) (sans0 j) = Some (board st'))
            \<and> possibleMoves st' = {} \<and> greedyMoveToTime st' = Map.empty \<and> \<not> hasGreedyMove d)"
      by (rule conjunct1)
    with commit have "(hasMove d \<longleftrightarrow> mode \<noteq> Play_mode \<and> (\<exists>j. bestMoves r = Some j \<and> positive (bestScore2 r)
              \<and> positive (bestJointScore r) \<and> sans0 j \<in> possibleMoves (st\<lparr>possibleMoves := possible\<rparr>)))
      \<and> (hasMove d \<longrightarrow> (\<exists>j. bestMoves r = Some j
                \<and> move_san E (board (st\<lparr>possibleMoves := possible\<rparr>)) (sans0 j) = Some (board st'))
            \<and> possibleMoves st' = {} \<and> greedyMoveToTime st' = Map.empty \<and> \<not> hasGreedyMove d)"
      by (rule mp [rotated])
    then have "(hasMove d \<longleftrightarrow> mode \<noteq> Play_mode
               \<and> (\<exists>j. bestMoves r = Some j \<and> positive (bestScore2 r)
                      \<and> positive (bestJointScore r) \<and> sans0 j \<in> possible))
         \<and> (hasMove d \<longrightarrow>
               (\<exists>j. bestMoves r = Some j \<and> move_san E (board st) (sans0 j) = Some (board st'))
               \<and> possibleMoves st' = {} \<and> greedyMoveToTime st' = Map.empty
               \<and> \<not> hasGreedyMove d)"
      by simp
    with scan show ?thesis by blast
  qed
  have bwd: "policy_cycle E mode state pairs t lm st
        = Inr (st\<lparr>possibleMoves := {}, greedyMoveToTime := Map.empty, board := b'\<rparr>,
               \<lparr>hasMove = True, hasGreedyMove = False, dispatched = Some (b', False)\<rparr>)"
    if "processState state pairs (possibleMoves st) = Inr (r, possible)
        \<and> mode \<noteq> Play_mode \<and> bestMoves r = Some j \<and> positive (bestScore2 r)
        \<and> positive (bestJointScore r) \<and> sans0 j \<in> possible
        \<and> move_san E (board st) (sans0 j) = Some b'"
  proof -
    from commit_logic_confirmed [of E mode t lm r "st\<lparr>possibleMoves := possible\<rparr>" st' d j b']
    have "mode \<noteq> Play_mode \<and> bestMoves r = Some j \<and> positive (bestScore2 r) \<and> positive (bestJointScore r)
        \<and> sans0 j \<in> possibleMoves (st\<lparr>possibleMoves := possible\<rparr>)
        \<and> move_san E (board (st\<lparr>possibleMoves := possible\<rparr>)) (sans0 j) = Some b' \<longrightarrow>
      commit_logic E mode t lm r (st\<lparr>possibleMoves := possible\<rparr>)
        = Inr (st\<lparr>possibleMoves := possible\<rparr>\<lparr>possibleMoves := {}, greedyMoveToTime := Map.empty, board := b'\<rparr>,
               \<lparr>hasMove = True, hasGreedyMove = False, dispatched = Some (b', False)\<rparr>)"
      by (rule conjunct2)
    with that have "commit_logic E mode t lm r (st\<lparr>possibleMoves := possible\<rparr>)
        = Inr (st\<lparr>possibleMoves := {}, greedyMoveToTime := Map.empty, board := b'\<rparr>,
               \<lparr>hasMove = True, hasGreedyMove = False, dispatched = Some (b', False)\<rparr>)"
      by simp
    with that show ?thesis
      by (simp add: policy_cycle_def)
  qed
  show ?thesis
    using fwd bwd by blast
qed

theorem confirmed_pair_commit_witness:
  "processState after_e4_e5 e4_e5_pairs (possibleMoves fresh_policy)
     = Inr (\<lparr>bestScore1 = Some (7 / 10), bestScore2 = Some (7 / 10), bestJointScore = Some (7 / 5),
             bestMove = Some e4_far, bestMoves = Some e4_e5_joint\<rparr>, {Some ''e4''})
   \<and> Record_mode \<noteq> Play_mode
   \<and> sans0 e4_e5_joint \<in> {Some ''e4''}
   \<and> move_san opening_engine (board fresh_policy) (sans0 e4_e5_joint) = Some [''e2e4'']
   \<and> policy_cycle opening_engine Record_mode after_e4_e5 e4_e5_pairs 40 [] fresh_policy
     = Inr (\<lparr>possibleMoves = {}, greedyMoveToTime = Map.empty, board = [''e2e4'']\<rparr>,
            \<lparr>hasMove = True, hasGreedyMove = False, dispatched = Some ([''e2e4''], False)\<rparr>)
   \<and> hasMove \<lparr>hasMove = True, hasGreedyMove = False, dispatched = Some ([''e2e4''], False)\<rparr>"
proof -
  have scan: "processState after_e4_e5 e4_e5_pairs (possibleMoves fresh_policy)
     = Inr (\<lparr>bestScore1 = Some (7 / 10), bestScore2 = Some (7 / 10), bestJointScore = Some (7 / 5),
             bestMove = Some e4_far, bestMoves = Some e4_e5_joint\<rparr>, {Some ''e4''})"
    using scan_after by (simp add: fresh_policy_def)
  have legal: "move_san opening_engine (board fresh_policy) (sans0 e4_e5_joint) = Some [''e2e4'']"
    by (simp add: fresh_policy_def sans0_joint opening_e4)
  from confirmed_pair_commit [of opening_engine Record_mode after_e4_e5 e4_e5_pairs 40 "[]"
      fresh_policy
      "\<lparr>possibleMoves = {}, greedyMoveToTime = Map.empty, board = [''e2e4'']\<rparr>"
      "\<lparr>hasMove = True, hasGreedyMove = False, dispatched = Some ([''e2e4''], False)\<rparr>"
      "\<lparr>bestScore1 = Some (7 / 10), bestScore2 = Some (7 / 10), bestJointScore = Some (7 / 5),
             bestMove = Some e4_far, bestMoves = Some e4_e5_joint\<rparr>"
      "{Some ''e4''}" e4_e5_joint "[''e2e4'']"]
  have "policy_cycle opening_engine Record_mode after_e4_e5 e4_e5_pairs 40 [] fresh_policy
     = Inr (\<lparr>possibleMoves = {}, greedyMoveToTime = Map.empty, board = [''e2e4'']\<rparr>,
            \<lparr>hasMove = True, hasGreedyMove = False, dispatched = Some ([''e2e4''], False)\<rparr>)"
    using scan legal by (simp add: positive_def sans0_joint fresh_policy_def)
  with scan legal show ?thesis
    by (simp add: sans0_joint)
qed

text \<open>
  The claim as it was stated, that the joint move is applied to the board, fails: the joint
  move of the pair is written \<^verbatim>\<open>e4\<close>, \<^verbatim>\<open>e5\<close>, and applying it to the starting position gives
  the board after both moves, but the cycle that commits the pair leaves the board after
  \<^verbatim>\<open>e4\<close> only.
\<close>

theorem joint_move_not_applied:
  "sans e4_e5_joint = [''e4'', ''e5'']
   \<and> move_sans opening_engine (board fresh_policy) (sans e4_e5_joint) = Some [''e2e4'', ''e7e5'']
   \<and> policy_cycle opening_engine Record_mode after_e4_e5 e4_e5_pairs 40 [] fresh_policy
     = Inr (\<lparr>possibleMoves = {}, greedyMoveToTime = Map.empty, board = [''e2e4'']\<rparr>,
            \<lparr>hasMove = True, hasGreedyMove = False, dispatched = Some ([''e2e4''], False)\<rparr>)"
proof -
  have "move_sans opening_engine (board fresh_policy) (sans e4_e5_joint) = Some [''e2e4'', ''e7e5'']"
    by (simp add: e4_e5_joint_def fresh_policy_def opening_engine_def)
  then show ?thesis
    using e4_e5_cycle by (simp add: e4_e5_joint_def)
qed

text \<open>
  Claim C1 (amended). In "play" mode the confirmed-pair commit never fires: a cycle that
  changes the board does so through the single-move path with its timer (the greedy
  path), \<^verbatim>\<open>possibleMoves\<close> is not cleared, and any dispatched update is marked non-greedy.
\<close>

theorem play_mode_commits:
  assumes "commit_logic E Play_mode t lm r st = Inr (st', d)"
  shows "\<not> hasMove d
       \<and> (board st' \<noteq> board st \<longrightarrow> hasGreedyMove d)
       \<and> (\<forall>b g. dispatched d = Some (b, g) \<longrightarrow> \<not> g)
       \<and> possibleMoves st' = possibleMoves st"
proof -
  from assms obtain c st1 g where 1: "confirmed_commit E Play_mode r st = Inr (c, st1)"
    and 2: "greedy_commit E t lm r c st1 = Inr (g, st')"
    and 3: "hasMove d = c" "hasGreedyMove d = g"
    and 4: "dispatched d = (if c \<or> g then Some (board st', if Play_mode = Play_mode then False else g) else None)"
    by (rule commit_logic_split)
  from confirmed_commit_cases [OF 1] have c: "\<not> c" "st1 = st"
    by simp_all
  from greedy_commit_cases(3) [OF 2] greedy_commit_cases(2) [OF 2]
  have "(\<not> g \<longrightarrow> board st' = board st) \<and> possibleMoves st' = possibleMoves st"
    unfolding c(2) by (cases g) auto
  then show ?thesis
    using c 3 4 by (auto split: if_splits)
qed

theorem play_mode_commits_witness:
  "commit_logic opening_engine Play_mode 1500 [] (sees_pair e4_far)
     \<lparr>possibleMoves = {Some ''e4''}, greedyMoveToTime = [''e4'' \<mapsto> 0], board = []\<rparr>
   = Inr (\<lparr>possibleMoves = {Some ''e4''}, greedyMoveToTime = [''greedyMove'' \<mapsto> 0], board = [''e2e4'']\<rparr>,
          \<lparr>hasMove = False, hasGreedyMove = True, dispatched = Some ([''e2e4''], False)\<rparr>)
   \<and> \<not> hasMove \<lparr>hasMove = False, hasGreedyMove = True, dispatched = Some ([''e2e4''], False)\<rparr>"
proof -
  have run: "commit_logic opening_engine Play_mode 1500 [] (sees_pair e4_far)
     \<lparr>possibleMoves = {Some ''e4''}, greedyMoveToTime = [''e4'' \<mapsto> 0], board = []\<rparr>
   = Inr (\<lparr>possibleMoves = {Some ''e4''}, greedyMoveToTime = [''greedyMove'' \<mapsto> 0], board = [''e2e4'']\<rparr>,
          \<lparr>hasMove = False, hasGreedyMove = True, dispatched = Some ([''e2e4''], False)\<rparr>)"
    by (simp add: commit_logic_def confirmed_commit_def greedy_commit_def Let_def sees_pair_def
      positive_def sans0_e4 to_key_def js_in_object_def Object_properties_def
      opening_lan opening_e4)
  from play_mode_commits [OF run] run show ?thesis by simp
qed

text \<open>
  The claim as it was stated, that no move is committed through the greedy path in "play"
  mode and only confirmed pairs apply, fails: with a move and its pair both evidenced and
  the notation in \<^verbatim>\<open>possibleMoves\<close>, two cycles 1500ms apart in "play" mode commit \<^verbatim>\<open>e4\<close>
  through the greedy path, with \<^verbatim>\<open>hasMove\<close> false.
\<close>

theorem play_mode_greedy_commit:
  "run_cycles opening_engine Play_mode
     [(0, [], sees_pair e4_far), (1500, [], sees_pair e4_far)]
     (fresh_policy\<lparr>possibleMoves := {Some ''e4''}\<rparr>)
   = Inr (\<lparr>possibleMoves = {Some ''e4''}, greedyMoveToTime = [''greedyMove'' \<mapsto> 0], board = [''e2e4'']\<rparr>,
          [\<lparr>hasMove = False, hasGreedyMove = False, dispatched = None\<rparr>,
           \<lparr>hasMove = False, hasGreedyMove = True, dispatched = Some ([''e2e4''], False)\<rparr>])"
  by (simp add: commit_logic_def confirmed_commit_def greedy_commit_def Let_def sees_pair_def
      positive_def sans0_e4 to_key_def js_in_object_def Object_properties_def fresh_policy_def
      opening_lan opening_e4)




section \<open>Facts about the sequencer\<close>























section \<open>Facts about the averager\<close>


























end
